theory Spec2Isabelle
  imports Complex_Main "HOL-Library.Char_ord" "HOL-Library.List_Lexorder"
begin

section \<open>The data cleaning session of app.py\<close>

text \<open>
  app.py is a Streamlit script. Between two runs of the script the only state that
  survives is \<^verbatim>\<open>st.session_state\<close> with its three entries \<^verbatim>\<open>df\<close>,
  \<^verbatim>\<open>original_df\<close> and \<^verbatim>\<open>cleaning_log\<close>. A run computes the quality report from
  \<^verbatim>\<open>df\<close>, renders the buttons the report calls for, and a click on a rendered button
  runs that button's handler. The embedding below has

  \<^item> the pandas values the script touches: cells, dtypes, a data frame;
  \<^item> the pandas operations it calls, each as a function on these values;
  \<^item> the session state as a record and every button handler as a function on it.

  Strings are lists of 8-bit characters, read as the code points 0 to 255.
  A float64 is modelled by an exact rational: the rounding of float arithmetic, the
  infinities and the sign of zero are not part of the model. A data frame is kept row by
  row, with the label and the dtype of every column beside; the row labels (the index)
  play no part in app.py and are left out. The cells are the values \<^verbatim>\<open>read_csv\<close>
  produces: missing, number, boolean, string.
\<close>

subsection \<open>Cells, dtypes and data frames\<close>

datatype cell = NaN | Num rat | Boolean bool | Str string

datatype dtype = Int64 | Float64 | Bool | Object

record dataframe =
  columns :: "(string \<times> dtype) list"
  rows :: "cell list list"

definition column_names :: "dataframe \<Rightarrow> string list" where
  "column_names d = map fst (columns d)"

text \<open>The position of a column label; the number of columns when the label is absent.\<close>

fun index_of :: "'a \<Rightarrow> 'a list \<Rightarrow> nat" where
  "index_of x [] = 0"
| "index_of x (y # ys) = (if x = y then 0 else Suc (index_of x ys))"

definition well_formed :: "dataframe \<Rightarrow> bool" where
  "well_formed d \<longleftrightarrow>
     distinct (column_names d) \<and> list_all (\<lambda>r. length r = length (columns d)) (rows d)"

text \<open>\<^verbatim>\<open>df[col]\<close>: the cells of one column, in row order.\<close>

definition getitem :: "dataframe \<Rightarrow> string \<Rightarrow> cell list" where
  "getitem d col = map (\<lambda>r. r ! index_of col (column_names d)) (rows d)"

definition dtype_of :: "dataframe \<Rightarrow> string \<Rightarrow> dtype" where
  "dtype_of d col = snd (columns d ! index_of col (column_names d))"

text \<open>\<^verbatim>\<open>df[col] = values\<close> for an existing column: new cells and new dtype, same position.\<close>

definition setitem :: "dataframe \<Rightarrow> string \<Rightarrow> dtype \<Rightarrow> cell list \<Rightarrow> dataframe" where
  "setitem d col t xs =
     (let i = index_of col (column_names d)
      in d\<lparr>columns := (columns d)[i := (col, t)],
           rows := map (\<lambda>(r, x). r[i := x]) (zip (rows d) xs)\<rparr>)"

subsection \<open>pandas: missing values\<close>

definition isnull :: "cell \<Rightarrow> bool" where
  "isnull c \<longleftrightarrow> c = NaN"

definition notnull :: "cell \<Rightarrow> bool" where
  "notnull c \<longleftrightarrow> c \<noteq> NaN"

text \<open>\<^verbatim>\<open>df.isnull().sum()\<close>: the number of missing cells of every column.\<close>

definition missing_data :: "dataframe \<Rightarrow> (string \<times> nat) list" where
  "missing_data d = map (\<lambda>col. (col, length (filter isnull (getitem d col)))) (column_names d)"

definition total_missing :: "dataframe \<Rightarrow> nat" where
  "total_missing d = sum_list (map snd (missing_data d))"

text \<open>\<^verbatim>\<open>missing_data[missing_data > 0].index.tolist()\<close>\<close>

definition cols_with_missing :: "dataframe \<Rightarrow> string list" where
  "cols_with_missing d = map fst (filter (\<lambda>(col, n). n > 0) (missing_data d))"

text \<open>\<^verbatim>\<open>df.dropna(subset=[col])\<close>: the rows whose cell in the column is present.\<close>

definition dropna :: "dataframe \<Rightarrow> string \<Rightarrow> dataframe" where
  "dropna d col =
     d\<lparr>rows := filter (\<lambda>r. notnull (r ! index_of col (column_names d))) (rows d)\<rparr>"

subsection \<open>pandas: duplicated rows\<close>

text \<open>
  \<^verbatim>\<open>df.duplicated()\<close> marks a row when an earlier row has the same cells in every
  column; two missing cells count as the same. \<^verbatim>\<open>drop_duplicates\<close> keeps the rows
  that are not marked.
\<close>

fun duplicated_from :: "'a list \<Rightarrow> 'a list \<Rightarrow> bool list" where
  "duplicated_from seen [] = []"
| "duplicated_from seen (r # rs) = (r \<in> set seen) # duplicated_from (r # seen) rs"

definition duplicated :: "dataframe \<Rightarrow> bool list" where
  "duplicated d = duplicated_from [] (rows d)"

definition duplicate_count :: "dataframe \<Rightarrow> nat" where
  "duplicate_count d = length (filter id (duplicated d))"

text \<open>The entries that are not marked, in their order: the first of every value.\<close>

definition unique :: "'a list \<Rightarrow> 'a list" where
  "unique xs = map fst (filter (\<lambda>(x, dup). \<not> dup) (zip xs (duplicated_from [] xs)))"

definition drop_duplicates :: "dataframe \<Rightarrow> dataframe" where
  "drop_duplicates d = d\<lparr>rows := unique (rows d)\<rparr>"

subsection \<open>Python and pandas: whitespace\<close>

text \<open>
  \<^verbatim>\<open>str.isspace\<close> on the code points below 256: tab, line feed, vertical tab, form
  feed, carriage return, the four separators 28 to 31, space, next line (133) and
  no-break space (160).
\<close>

definition isspace :: "char \<Rightarrow> bool" where
  "isspace c \<longleftrightarrow> of_char c \<in> set [9, 10, 11, 12, 13, 28, 29, 30, 31, 32, 133, 160 :: nat]"

definition lstrip :: "string \<Rightarrow> string" where
  "lstrip s = dropWhile isspace s"

definition rstrip :: "string \<Rightarrow> string" where
  "rstrip s = rev (dropWhile isspace (rev s))"

definition strip :: "string \<Rightarrow> string" where
  "strip s = lstrip (rstrip s)"


subsection \<open>Python: formatting values in f-strings\<close>

definition digit :: "nat \<Rightarrow> char" where
  "digit n = ''0123456789'' ! n"

fun str_nat :: "nat \<Rightarrow> string" where
  "str_nat n = (if n < 10 then [digit n] else str_nat (n div 10) @ [digit (n mod 10)])"

declare str_nat.simps [simp del]

text \<open>
  \<^verbatim>\<open>str\<close> of a float prints the shortest decimal that reads back as the same
  float64. An exact rational has no such rounding: \<open>str_float\<close> prints its decimal
  expansion, cut after 16 digits behind the point. No result below depends on the
  digits it prints.
\<close>

fun frac_digits :: "nat \<Rightarrow> nat \<Rightarrow> nat \<Rightarrow> string" where
  "frac_digits 0 r q = []"
| "frac_digits (Suc k) r q =
     (if r = 0 then [] else digit ((10 * r) div q) # frac_digits k ((10 * r) mod q) q)"

definition str_float :: "rat \<Rightarrow> string" where
  "str_float x =
     (let (p, q) = quotient_of x; a = nat \<bar>p\<bar>; b = nat q
      in (if p < 0 then ''-'' else []) @ str_nat (a div b) @ ''.'' @
         (if a mod b = 0 then ''0'' else frac_digits 16 (a mod b) b))"

fun py_str :: "cell \<Rightarrow> string" where
  "py_str NaN = ''nan''"
| "py_str (Num x) = str_float x"
| "py_str (Boolean b) = (if b then ''True'' else ''False'')"
| "py_str (Str s) = s"

text \<open>\<^verbatim>\<open>{val:.2f}\<close>: two digits behind the point, ties to the even neighbour.\<close>

definition round_half_even :: "rat \<Rightarrow> int" where
  "round_half_even x =
     (let f = \<lfloor>x\<rfloor>; r = x - of_int f
      in if r < 1 / 2 then f else if 1 / 2 < r then f + 1 else if even f then f else f + 1)"

fun format_2f :: "cell \<Rightarrow> string" where
  "format_2f (Num x) =
     (let n = nat (round_half_even (\<bar>x\<bar> * 100))
      in (if x < 0 then ''-'' else []) @ str_nat (n div 100) @ ''.'' @
         [digit (n mod 100 div 10), digit (n mod 10)])"
| "format_2f c = py_str c"

subsection \<open>pandas: string columns\<close>

text \<open>\<^verbatim>\<open>df.select_dtypes(include=['object']).columns\<close>\<close>

definition string_cols :: "dataframe \<Rightarrow> string list" where
  "string_cols d = map fst (filter (\<lambda>(col, t). t = Object) (columns d))"

text \<open>
  Line 57 of app.py, the test applied to every cell of a string column:
  \<^verbatim>\<open>len(str(x)) != len(str(x).strip()) if pd.notnull(x) else False\<close>
\<close>

definition has_whitespace_issue :: "cell \<Rightarrow> bool" where
  "has_whitespace_issue x =
     (if notnull x then length (py_str x) \<noteq> length (strip (py_str x)) else False)"

definition whitespace_issues :: "dataframe \<Rightarrow> nat" where
  "whitespace_issues d =
     sum_list (map (\<lambda>col. length (filter has_whitespace_issue (getitem d col))) (string_cols d))"

text \<open>
  The errors the pandas calls of app.py can raise. \<^verbatim>\<open>Series.str\<close> raises
  AttributeError ("Can only use .str accessor with string values!") when the values
  that are present are all floats or all booleans; \<^verbatim>\<open>mode()[0]\<close> raises KeyError
  when the column has no value that is present; \<^verbatim>\<open>read_csv\<close> raises ParserError on
  input it cannot split into records and EmptyDataError on input without a header.
\<close>

datatype exn = KeyError | AttributeError | ParserError | EmptyDataError

fun is_num :: "cell \<Rightarrow> bool" where
  "is_num (Num x) = True"
| "is_num c = False"

fun is_bool :: "cell \<Rightarrow> bool" where
  "is_bool (Boolean b) = True"
| "is_bool c = False"

fun is_str :: "cell \<Rightarrow> bool" where
  "is_str (Str s) = True"
| "is_str c = False"

definition str_accessor_ok :: "cell list \<Rightarrow> bool" where
  "str_accessor_ok xs =
     (let vs = filter notnull xs in vs = [] \<or> \<not> list_all is_num vs \<and> \<not> list_all is_bool vs)"

text \<open>
  \<^verbatim>\<open>Series.str.strip()\<close>: a string is stripped, every other cell becomes missing.
\<close>

fun strip_cell :: "cell \<Rightarrow> cell" where
  "strip_cell (Str s) = Str (strip s)"
| "strip_cell c = NaN"

definition str_strip :: "cell list \<Rightarrow> exn + cell list" where
  "str_strip xs = (if str_accessor_ok xs then Inr (map strip_cell xs) else Inl AttributeError)"

subsection \<open>pandas: mean, median, mode, fillna\<close>

fun number_of :: "cell \<Rightarrow> rat option" where
  "number_of (Num x) = Some x"
| "number_of (Boolean b) = Some (if b then 1 else 0)"
| "number_of c = None"

definition numbers :: "cell list \<Rightarrow> rat list" where
  "numbers xs = List.map_filter number_of xs"

text \<open>\<^verbatim>\<open>Series.mean()\<close> and \<^verbatim>\<open>Series.median()\<close> skip missing cells; NaN when none is left.\<close>

definition mean :: "cell list \<Rightarrow> cell" where
  "mean xs =
     (let vs = numbers xs
      in if vs = [] then NaN else Num (sum_list vs / of_nat (length vs)))"

definition median :: "cell list \<Rightarrow> cell" where
  "median xs =
     (let vs = sort (numbers xs); n = length vs
      in if n = 0 then NaN
         else if odd n then Num (vs ! (n div 2))
         else Num ((vs ! (n div 2 - 1) + vs ! (n div 2)) / 2))"

text \<open>
  \<^verbatim>\<open>Series.mode()\<close>: the values that occur most often among the cells that are
  present. pandas collects them in the order of their first occurrence and then sorts
  them with \<^verbatim>\<open>np.sort\<close>; when the values cannot be compared with each other (strings
  next to numbers) the sort raises TypeError, pandas warns, and the order of first
  occurrence stays.
\<close>

definition max_list :: "nat list \<Rightarrow> nat" where
  "max_list ns = fold max ns 0"

fun str_key :: "cell \<Rightarrow> string" where
  "str_key (Str s) = s"
| "str_key c = []"

fun num_key :: "cell \<Rightarrow> rat" where
  "num_key (Num x) = x"
| "num_key (Boolean b) = (if b then 1 else 0)"
| "num_key c = 0"

definition np_sort :: "cell list \<Rightarrow> cell list" where
  "np_sort vs =
     (if list_all is_str vs then sort_key str_key vs
      else if list_all (\<lambda>v. \<not> is_str v) vs then sort_key num_key vs
      else vs)"

definition mode :: "cell list \<Rightarrow> cell list" where
  "mode xs =
     (let vs = filter notnull xs;
          us = unique vs;
          m = max_list (map (count_list vs) us)
      in np_sort (filter (\<lambda>v. count_list vs v = m) us))"

definition fillna :: "cell list \<Rightarrow> cell \<Rightarrow> cell list" where
  "fillna xs val = map (\<lambda>c. if isnull c then val else c) xs"

text \<open>A string stored in a numeric column turns the column into an object column.\<close>

fun fillna_dtype :: "dtype \<Rightarrow> cell \<Rightarrow> dtype" where
  "fillna_dtype t (Str s) = Object"
| "fillna_dtype t c = t"

text \<open>
  \<^verbatim>\<open>df[col].fillna(val, inplace=True)\<close>, as lines 115 to 126 rely on it: the fill
  reaches the column of the frame (pandas before version 3, without copy-on-write).
\<close>

definition fillna_inplace :: "dataframe \<Rightarrow> string \<Rightarrow> cell \<Rightarrow> dataframe" where
  "fillna_inplace d col val =
     setitem d col (fillna_dtype (dtype_of d col) val) (fillna (getitem d col) val)"

definition is_numeric_dtype :: "dtype \<Rightarrow> bool" where
  "is_numeric_dtype t \<longleftrightarrow> t \<noteq> Object"

subsection \<open>The session state\<close>

record session =
  df :: dataframe
  original_df :: dataframe
  cleaning_log :: "string list"

text \<open>Lines 27 to 30: the first run after an upload stores the table read from it.\<close>

definition load :: "dataframe \<Rightarrow> session" where
  "load d = \<lparr>df = d, original_df = d, cleaning_log = []\<rparr>"

text \<open>
  What a click can lead to: the button is not on the page in this state, its handler
  raised (the session is left as the handler had it at that moment), or the handler
  ran to its end.
\<close>

datatype outcome = NotRendered | Raised exn session | Done session

definition append_log :: "string \<Rightarrow> session \<Rightarrow> session" where
  "append_log msg s = s\<lparr>cleaning_log := cleaning_log s @ [msg]\<rparr>"

definition quoted :: "string \<Rightarrow> string" where
  "quoted col = [CHR 0x27] @ col @ [CHR 0x27]"

subsection \<open>Lines 67 to 73: remove duplicates\<close>

definition remove_all_duplicates :: "session \<Rightarrow> outcome" where
  "remove_all_duplicates s =
     (let n = duplicate_count (df s)
      in if n > 0
         then Done (append_log (''Removed '' @ str_nat n @ '' duplicate rows.'')
                      (s\<lparr>df := drop_duplicates (df s)\<rparr>))
         else NotRendered)"

subsection \<open>Lines 76 to 83: trim whitespace\<close>

text \<open>
  The loop over the string columns assigns column by column; when \<^verbatim>\<open>.str\<close> raises,
  the columns assigned so far stay assigned.
\<close>

fun trim_loop :: "string list \<Rightarrow> dataframe \<Rightarrow> exn option \<times> dataframe" where
  "trim_loop [] d = (None, d)"
| "trim_loop (col # cols) d =
     (case str_strip (getitem d col) of
        Inl e \<Rightarrow> (Some e, d)
      | Inr xs \<Rightarrow> trim_loop cols (setitem d col Object xs))"

definition trim_all_whitespace :: "session \<Rightarrow> outcome" where
  "trim_all_whitespace s =
     (let n = whitespace_issues (df s)
      in if n > 0
         then (case trim_loop (string_cols (df s)) (df s) of
                 (Some e, d) \<Rightarrow> Raised e (s\<lparr>df := d\<rparr>)
               | (None, d) \<Rightarrow>
                   Done (append_log (''Trimmed whitespace in '' @ str_nat n @ '' cells.'')
                           (s\<lparr>df := d\<rparr>)))
         else NotRendered)"

subsection \<open>Lines 86 to 131: missing values, column by column\<close>

definition options :: "bool \<Rightarrow> string list" where
  "options is_numeric =
     [''Select an action...'', ''Delete rows with missing values''] @
     (if is_numeric then [''Fill with Mean'', ''Fill with Median'']
      else [''Fill with Mode (Most Frequent)'']) @
     [''Fill with Custom Value'']"

text \<open>
  Lines 108 to 131, the handler of the button \<^verbatim>\<open>Apply to 'col'\<close>, with the action
  the select box holds and the value of \<^verbatim>\<open>custom_val\<close>.
\<close>

definition apply_action :: "string \<Rightarrow> string \<Rightarrow> string option \<Rightarrow> session \<Rightarrow> outcome" where
  "apply_action col action custom_val s =
     (if action = ''Delete rows with missing values'' then
        (let count_before = length (rows (df s));
             d = dropna (df s) col;
             count_after = length (rows d)
         in Done (append_log (''Deleted '' @ str_nat (count_before - count_after) @
                    '' rows due to missing values in '' @ quoted col @ ''.'')
                    (s\<lparr>df := d\<rparr>)))
      else if action = ''Fill with Mean'' then
        (let val = mean (getitem (df s) col)
         in Done (append_log (''Filled missing values in '' @ quoted col @
                    '' with mean ('' @ format_2f val @ '').'')
                    (s\<lparr>df := fillna_inplace (df s) col val\<rparr>)))
      else if action = ''Fill with Median'' then
        (let val = median (getitem (df s) col)
         in Done (append_log (''Filled missing values in '' @ quoted col @
                    '' with median ('' @ py_str val @ '').'')
                    (s\<lparr>df := fillna_inplace (df s) col val\<rparr>)))
      else if action = ''Fill with Mode (Most Frequent)'' then
        (case mode (getitem (df s) col) of
           [] \<Rightarrow> Raised KeyError s
         | val # _ \<Rightarrow>
             Done (append_log (''Filled missing values in '' @ quoted col @
                     '' with mode ('' @ py_str val @ '').'')
                     (s\<lparr>df := fillna_inplace (df s) col val\<rparr>)))
      else if action = ''Fill with Custom Value'' \<and> custom_val \<noteq> None then
        Done (append_log (''Filled missing values in '' @ quoted col @
                '' with custom value: '' @ the custom_val @ ''.'')
                (s\<lparr>df := fillna_inplace (df s) col (Str (the custom_val))\<rparr>))
      else Done s)"

text \<open>
  The button exists for the columns of \<^verbatim>\<open>cols_with_missing\<close> only, and the select
  box beside it holds one of the options of lines 94 to 99. The text input is rendered,
  and \<^verbatim>\<open>custom_val\<close> set to its text, when the custom action is selected (lines
  103 to 105); an input left empty gives the empty string.
\<close>

definition apply_to :: "string \<Rightarrow> string \<Rightarrow> string \<Rightarrow> session \<Rightarrow> outcome" where
  "apply_to col action typed s =
     (if total_missing (df s) > 0 \<and> col \<in> set (cols_with_missing (df s)) \<and>
         action \<in> set (options (is_numeric_dtype (dtype_of (df s) col)))
      then apply_action col action
             (if action = ''Fill with Custom Value'' then Some typed else None) s
      else NotRendered)"

subsection \<open>Lines 137 to 155: reset\<close>

definition reset :: "session \<Rightarrow> session" where
  "reset s = s\<lparr>df := original_df s, cleaning_log := []\<rparr>"

definition reset_all_changes :: "session \<Rightarrow> outcome" where
  "reset_all_changes s = (if cleaning_log s \<noteq> [] then Done (reset s) else NotRendered)"

subsection \<open>Clicks\<close>

datatype button =
    RemoveAllDuplicates
  | TrimAllWhitespace
  | ApplyTo string string string
  | ResetAllChanges

fun click :: "button \<Rightarrow> session \<Rightarrow> outcome" where
  "click RemoveAllDuplicates s = remove_all_duplicates s"
| "click TrimAllWhitespace s = trim_all_whitespace s"
| "click (ApplyTo col action typed) s = apply_to col action typed s"
| "click ResetAllChanges s = reset_all_changes s"

text \<open>The session state the next run of the script starts from.\<close>

fun state_after :: "outcome \<Rightarrow> session \<Rightarrow> session" where
  "state_after NotRendered s = s"
| "state_after (Raised e s') s = s'"
| "state_after (Done s') s = s'"

definition rerun :: "session \<Rightarrow> button \<Rightarrow> session" where
  "rerun s b = state_after (click b s) s"

definition run :: "button list \<Rightarrow> session \<Rightarrow> session" where
  "run bs s = foldl rerun s bs"

subsection \<open>pandas: to_csv\<close>










subsection \<open>pandas: read_csv\<close>































text \<open>
  The cell in row \<open>a\<close> and column \<open>j\<close> after the columns \<open>cols\<close> have been stripped.
\<close>

definition trimmed_cell :: "dataframe \<Rightarrow> string list \<Rightarrow> nat \<Rightarrow> nat \<Rightarrow> cell" where
  "trimmed_cell d cols a j =
     (if j < length (columns d) \<and> column_names d ! j \<in> set cols
      then strip_cell (rows d ! a ! j) else rows d ! a ! j)"

section \<open>Example tables\<close>

text \<open>Five rows A, B, A, C, B in one text column.\<close>

definition abacb :: dataframe where
  "abacb = \<lparr>columns = [(''k'', Object)],
            rows = [[Str ''A''], [Str ''B''], [Str ''A''], [Str ''C''], [Str ''B'']]\<rparr>"

text \<open>A text column with one missing cell; the same column without rows.\<close>

definition names_table :: dataframe where
  "names_table = \<lparr>columns = [(''name'', Object)], rows = [[Str ''x''], [NaN]]\<rparr>"

definition empty_table :: dataframe where
  "empty_table = \<lparr>columns = [(''name'', Object)], rows = []\<rparr>"

text \<open>A text column and a numeric column, both with a missing cell.\<close>

definition ages_table :: dataframe where
  "ages_table = \<lparr>columns = [(''name'', Object), (''age'', Float64)],
                 rows = [[Str ''ann'', Num 1], [NaN, NaN], [Str ''bob'', Num 3]]\<rparr>"

text \<open>A text column where two values are equally frequent.\<close>

definition tie_table :: dataframe where
  "tie_table = \<lparr>columns = [(''name'', Object)], rows = [[Str ''b''], [Str ''a''], [NaN]]\<rparr>"

definition votes_table :: dataframe where
  "votes_table = \<lparr>columns = [(''id'', Int64), (''vote'', Object)],
                  rows = [[Num 1, Str ''no''], [Num 2, Str ''yes''], [Num 3, NaN],
                          [Num 4, Str ''yes''], [Num 5, Str ''no''], [Num 6, Str ''abstain'']]\<rparr>"

text \<open>
  What \<^verbatim>\<open>read_csv\<close> makes of a file with the lines \<^verbatim>\<open>flag,name\<close>, \<^verbatim>\<open>True, x\<close>
  and \<^verbatim>\<open>,y\<close>: a column of booleans with a missing value is an object column.
\<close>

definition flags_table :: dataframe where
  "flags_table = \<lparr>columns = [(''flag'', Object), (''name'', Object)],
                  rows = [[Boolean True, Str '' x''], [NaN, Str ''y'']]\<rparr>"




text \<open>A text column with a padded name.\<close>

definition padded_table :: dataframe where
  "padded_table = \<lparr>columns = [(''name'', Object), (''age'', Float64)],
                   rows = [[Str '' ann '', Num 1], [NaN, NaN], [Str ''bob'', Num 2]]\<rparr>"

section \<open>Duplicate rows\<close>

lemma count_duplicated_from:
  "length (filter id (duplicated_from seen rs)) + card (set rs - set seen) = length rs"
proof (induction rs arbitrary: seen)
  case Nil
  show ?case by simp
next
  case (Cons r rs)
  note IH = Cons.IH [of "r # seen"]
  show ?case
  proof (cases "r \<in> set seen")
    case True
    then have "set (r # rs) - set seen = set rs - set (r # seen)"
      by auto
    then have "card (set (r # rs) - set seen) = card (set rs - set (r # seen))"
      by (rule arg_cong)
    with IH True show ?thesis by (simp del: set_simps)
  next
    case False
    have "set (r # rs) - set seen = insert r (set rs - set (r # seen))"
      using False by auto
    then have "card (set (r # rs) - set seen) = card (insert r (set rs - set (r # seen)))"
      by (rule arg_cong)
    also have "\<dots> = Suc (card (set rs - set (r # seen)))"
      by (rule card_insert_disjoint) auto
    finally show ?thesis
      using IH False by (simp del: set_simps)
  qed
qed

text \<open>
  C1. For every table, the duplicate-row count of the quality report (line 48) is the
  number of rows minus the number of distinct rows.
\<close>

theorem duplicate_count_is_rows_minus_distinct:
  "duplicate_count d = length (rows d) - card (set (rows d))"
  using count_duplicated_from [of "[]" "rows d"]
  by (simp add: duplicate_count_def duplicated_def)

lemma unique_from_index:
  "map fst (filter (\<lambda>(x, dup). \<not> dup) (zip xs (duplicated_from seen xs))) =
   map (\<lambda>i. xs ! i) (filter (\<lambda>i. xs ! i \<notin> set seen \<union> set (take i xs)) [0..<length xs])"
proof (induction xs arbitrary: seen)
  case Nil
  show ?case by simp
next
  case (Cons x xs)
  have upt: "[0..<length (x # xs)] = 0 # map Suc [0..<length xs]"
    using upt_conv_Cons [of 0 "Suc (length xs)"] map_Suc_upt [of 0 "length xs"]
    by (simp del: upt_Suc)
  show ?case
    unfolding upt
    using Cons.IH [of "x # seen"]
    by (simp add: filter_map o_def conj_ac)
qed

lemma unique_index:
  "unique xs = map (\<lambda>i. xs ! i) (filter (\<lambda>i. xs ! i \<notin> set (take i xs)) [0..<length xs])"
  using unique_from_index [of xs "[]"] by (simp add: unique_def)

lemma length_unique:
  "length (unique xs) + length (filter id (duplicated_from [] xs)) = length xs"
proof -
  have len: "length (duplicated_from seen ys) = length ys" for seen and ys :: "'a list"
    by (induction ys arbitrary: seen) simp_all
  have "length (filter (\<lambda>(x, dup). \<not> dup) (zip ys bs)) + length (filter id bs) = length ys"
    if "length bs = length ys" for ys :: "'a list" and bs
    using that by (induction ys bs rule: list_induct2') simp_all
  from this [OF len] show ?thesis
    by (simp add: unique_def)
qed


text \<open>
  C4. The button "Remove All Duplicates" (rendered when the report counts a duplicate)
  keeps row \<open>i\<close> exactly when no row before it has the same cells, keeps the kept rows
  in their order and the columns as they are, and appends the message
  "Removed n duplicate rows." where \<open>n\<close> is the number of rows that went away. On the
  rows A, B, A, C, B this leaves A, B, C and logs "Removed 2 duplicate rows.".
\<close>

theorem remove_duplicates_keeps_first_occurrences:
  assumes "0 < duplicate_count (df s)"
  shows "click RemoveAllDuplicates s =
           Done (s\<lparr>df := drop_duplicates (df s),
                   cleaning_log := cleaning_log s @
                     [''Removed '' @
                      str_nat (length (rows (df s)) - length (rows (drop_duplicates (df s)))) @
                      '' duplicate rows.'']\<rparr>) \<and>
         rows (drop_duplicates (df s)) =
           map (\<lambda>i. rows (df s) ! i)
             (filter (\<lambda>i. rows (df s) ! i \<notin> set (take i (rows (df s))))
                [0..<length (rows (df s))]) \<and>
         columns (drop_duplicates (df s)) = columns (df s)"
proof -
  have n: "duplicate_count (df s) =
             length (rows (df s)) - length (rows (drop_duplicates (df s)))"
    using length_unique [of "rows (df s)"]
    by (simp add: duplicate_count_def duplicated_def drop_duplicates_def)
  have c: "click RemoveAllDuplicates s =
           Done (s\<lparr>df := drop_duplicates (df s),
                   cleaning_log := cleaning_log s @
                     [''Removed '' @
                      str_nat (length (rows (df s)) - length (rows (drop_duplicates (df s)))) @
                      '' duplicate rows.'']\<rparr>)"
    using assms n by (simp add: remove_all_duplicates_def append_log_def Let_def)
  have r: "rows (drop_duplicates (df s)) =
           map (\<lambda>i. rows (df s) ! i)
             (filter (\<lambda>i. rows (df s) ! i \<notin> set (take i (rows (df s))))
                [0..<length (rows (df s))])"
    using unique_index [of "rows (df s)"] by (simp add: drop_duplicates_def)
  have k: "columns (drop_duplicates (df s)) = columns (df s)"
    by (simp add: drop_duplicates_def)
  from c r k show ?thesis by blast
qed

theorem remove_duplicates_keeps_first_occurrences_witness:
  "0 < duplicate_count (df (load abacb)) \<and>
   click RemoveAllDuplicates (load abacb) =
     Done \<lparr>df = \<lparr>columns = [(''k'', Object)],
                 rows = [[Str ''A''], [Str ''B''], [Str ''C'']]\<rparr>,
           original_df = abacb,
           cleaning_log = [''Removed 2 duplicate rows.'']\<rparr>"
proof -
  have d: "df (load abacb) = abacb"
    by (simp add: load_def)
  have h: "0 < duplicate_count (df (load abacb))"
    by (simp add: load_def abacb_def duplicate_count_def duplicated_def)
  have u: "drop_duplicates abacb =
           \<lparr>columns = [(''k'', Object)], rows = [[Str ''A''], [Str ''B''], [Str ''C'']]\<rparr>"
    by (simp add: abacb_def drop_duplicates_def unique_def)
  have l: "length (rows abacb) = 5"
    by (simp add: abacb_def)
  have two: "str_nat 2 = ''2''"
    by (simp add: str_nat.simps digit_def)
  show ?thesis
    using h remove_duplicates_keeps_first_occurrences [OF h]
    by (simp add: d u l two load_def)
qed


section \<open>Reset\<close>

lemma click_original_df:
  "original_df (state_after (click b s) s) = original_df s"
proof (cases b)
  case RemoveAllDuplicates
  then show ?thesis
    by (simp add: remove_all_duplicates_def append_log_def Let_def)
next
  case TrimAllWhitespace
  then show ?thesis
    by (simp add: trim_all_whitespace_def append_log_def Let_def split: prod.splits option.splits)
next
  case (ApplyTo col action typed)
  then show ?thesis
    by (simp add: apply_to_def apply_action_def append_log_def Let_def split: list.splits)
next
  case ResetAllChanges
  then show ?thesis
    by (simp add: reset_all_changes_def reset_def)
qed

lemma run_original_df: "original_df (run bs s) = original_df s"
  unfolding run_def
  by (induction bs arbitrary: s) (simp_all add: rerun_def click_original_df)

text \<open>
  C2. Whatever buttons were clicked since the table \<open>t\<close> was loaded, the handler of
  "Reset All Changes" (lines 153 and 154) leaves \<open>t\<close> as the current table and an empty
  log: the session is the freshly loaded one again. The button is on the page whenever
  the log is not empty.
\<close>

theorem reset_restores_loaded_table:
  "reset (run bs (load t)) = load t \<and>
   df (reset (run bs (load t))) = t \<and>
   cleaning_log (reset (run bs (load t))) = [] \<and>
   click ResetAllChanges (run bs (load t)) =
     (if cleaning_log (run bs (load t)) = [] then NotRendered else Done (load t))"
proof -
  have o: "original_df (run bs (load t)) = t"
    by (simp add: run_original_df load_def)
  have r: "reset (run bs (load t)) = load t"
    using o by (simp add: reset_def load_def)
  show ?thesis
    using r by (simp add: reset_all_changes_def load_def)
qed



section \<open>What the page offers\<close>

lemma names_table_missing:
  "total_missing names_table = 1 \<and> cols_with_missing names_table = [''name''] \<and>
   dtype_of names_table ''name'' = Object"
  by (simp add: names_table_def total_missing_def cols_with_missing_def missing_data_def
      column_names_def getitem_def isnull_def dtype_of_def)

lemma ages_table_missing:
  "total_missing ages_table = 2 \<and> cols_with_missing ages_table = [''name'', ''age''] \<and>
   dtype_of ages_table ''age'' = Float64 \<and> dtype_of ages_table ''name'' = Object"
  by (simp add: ages_table_def total_missing_def cols_with_missing_def missing_data_def
      column_names_def getitem_def isnull_def dtype_of_def)

text \<open>
  C3, as the specification states it: applying Fill with Mean (or Median) to a text
  column fails with a type mismatch error. In app.py the select box of a column that is
  not numeric does not hold these two actions (lines 95 to 98), so the click does not
  exist and nothing fails.
\<close>

theorem fill_mean_on_text_column_counterexample:
  "click (ApplyTo ''name'' ''Fill with Mean'' []) (load names_table) = NotRendered \<and>
   click (ApplyTo ''name'' ''Fill with Median'' []) (load names_table) = NotRendered"
  by (simp add: apply_to_def load_def names_table_missing options_def is_numeric_dtype_def)

text \<open>
  C3, amended: for a column whose dtype is not numeric the actions Fill with Mean and
  Fill with Median are not offered, and the session (table and log) stays as it is.
\<close>

theorem mean_and_median_not_offered_for_text_column:
  assumes "\<not> is_numeric_dtype (dtype_of (df s) col)"
  shows "click (ApplyTo col ''Fill with Mean'' typed) s = NotRendered \<and>
         click (ApplyTo col ''Fill with Median'' typed) s = NotRendered \<and>
         rerun s (ApplyTo col ''Fill with Mean'' typed) = s \<and>
         rerun s (ApplyTo col ''Fill with Median'' typed) = s"
  using assms by (simp add: apply_to_def options_def rerun_def)

theorem mean_and_median_not_offered_for_text_column_witness:
  "\<not> is_numeric_dtype (dtype_of (df (load names_table)) ''name'') \<and>
   click (ApplyTo ''name'' ''Fill with Mean'' []) (load names_table) = NotRendered \<and>
   click (ApplyTo ''name'' ''Fill with Median'' []) (load names_table) = NotRendered \<and>
   rerun (load names_table) (ApplyTo ''name'' ''Fill with Mean'' []) = load names_table \<and>
   rerun (load names_table) (ApplyTo ''name'' ''Fill with Median'' []) = load names_table"
proof -
  have h: "\<not> is_numeric_dtype (dtype_of (df (load names_table)) ''name'')"
    by (simp add: load_def names_table_missing is_numeric_dtype_def)
  show ?thesis
    using h mean_and_median_not_offered_for_text_column [OF h, of "[]"] by simp
qed

lemma no_rows_no_report:
  assumes "rows d = []"
  shows "duplicate_count d = 0" and "whitespace_issues d = 0" and "total_missing d = 0"
  using assms
  by (simp_all add: duplicate_count_def duplicated_def whitespace_issues_def getitem_def
      total_missing_def missing_data_def o_def)

lemma cols_with_missing_subset:
  "set (cols_with_missing d) \<subseteq> set (column_names d)"
  by (auto simp: cols_with_missing_def missing_data_def)

text \<open>
  C9, as the specification states it: on a table without rows, or for a column the
  table does not have, applying an operation fails with a not-found error. In app.py no
  cleaning button is on the page for a table without rows, and the Apply buttons are
  made from the columns of the table (line 90): nothing is raised.
\<close>

theorem empty_table_counterexample:
  "click RemoveAllDuplicates (load empty_table) = NotRendered \<and>
   click TrimAllWhitespace (load empty_table) = NotRendered \<and>
   click (ApplyTo ''name'' ''Delete rows with missing values'' []) (load empty_table) = NotRendered \<and>
   click (ApplyTo ''age'' ''Delete rows with missing values'' []) (load names_table) = NotRendered"
proof -
  have e: "rows (df (load empty_table)) = []"
    by (simp add: load_def empty_table_def)
  have a: "''age'' \<notin> set (cols_with_missing (df (load names_table)))"
    by (simp add: load_def names_table_missing)
  show ?thesis
    using no_rows_no_report [OF e] a
    by (simp add: remove_all_duplicates_def trim_all_whitespace_def apply_to_def)
qed

text \<open>
  C9, amended: on a table without rows none of the cleaning buttons is rendered, and
  for a column that the table does not have there is no Apply button; no error is
  raised and the session stays as it is.
\<close>

theorem nothing_offered_without_rows_or_column:
  "(rows (df s) = [] \<longrightarrow>
      click RemoveAllDuplicates s = NotRendered \<and>
      click TrimAllWhitespace s = NotRendered \<and>
      click (ApplyTo col action typed) s = NotRendered) \<and>
   (col \<notin> set (column_names (df s)) \<longrightarrow>
      click (ApplyTo col action typed) s = NotRendered \<and>
      rerun s (ApplyTo col action typed) = s)"
proof -
  have "click (ApplyTo col action typed) s = NotRendered"
    if "col \<notin> set (column_names (df s))"
    using that cols_with_missing_subset [of "df s"] by (auto simp: apply_to_def)
  moreover have "click RemoveAllDuplicates s = NotRendered \<and>
      click TrimAllWhitespace s = NotRendered \<and>
      click (ApplyTo col action typed) s = NotRendered" if "rows (df s) = []"
    using no_rows_no_report [OF that]
    by (simp add: remove_all_duplicates_def trim_all_whitespace_def apply_to_def)
  ultimately show ?thesis by (simp add: rerun_def)
qed

theorem nothing_offered_without_rows_or_column_witness:
  "rows (df (load empty_table)) = [] \<and>
   click RemoveAllDuplicates (load empty_table) = NotRendered \<and>
   click TrimAllWhitespace (load empty_table) = NotRendered \<and>
   click (ApplyTo ''name'' ''Fill with Custom Value'' ''x'') (load empty_table) = NotRendered \<and>
   ''age'' \<notin> set (column_names (df (load names_table))) \<and>
   click (ApplyTo ''age'' ''Fill with Custom Value'' ''x'') (load names_table) = NotRendered \<and>
   rerun (load names_table) (ApplyTo ''age'' ''Fill with Custom Value'' ''x'') = load names_table"
proof -
  have e: "rows (df (load empty_table)) = []"
    by (simp add: load_def empty_table_def)
  have a: "''age'' \<notin> set (column_names (df (load names_table)))"
    by (simp add: load_def names_table_def column_names_def)
  show ?thesis
    using e a
      nothing_offered_without_rows_or_column
        [of "load empty_table" "''name''" "''Fill with Custom Value''" "''x''"]
      nothing_offered_without_rows_or_column
        [of "load names_table" "''age''" "''Fill with Custom Value''" "''x''"]
    by simp
qed

text \<open>
  C8, as the specification states it: a custom fill with an empty value, and an Apply
  with no action selected, fail with an invalid-input error and fill nothing. In app.py
  the text input left empty gives the empty string, which passes the test
  \<^verbatim>\<open>custom_val is not None\<close> of line 125: the missing cell is filled with the empty
  string and the log gets an entry. With no action selected the handler does nothing and
  raises nothing.
\<close>

theorem empty_custom_value_counterexample:
  "click (ApplyTo ''name'' ''Fill with Custom Value'' []) (load names_table) =
     Done \<lparr>df = \<lparr>columns = [(''name'', Object)], rows = [[Str ''x''], [Str []]]\<rparr>,
           original_df = names_table,
           cleaning_log =
             [''Filled missing values in '' @ quoted ''name'' @ '' with custom value: .'']\<rparr> \<and>
   click (ApplyTo ''name'' ''Select an action...'' []) (load names_table) =
     Done (load names_table)"
proof -
  have f: "fillna_inplace names_table ''name'' (Str []) =
           \<lparr>columns = [(''name'', Object)], rows = [[Str ''x''], [Str []]]\<rparr>"
    by (simp add: fillna_inplace_def setitem_def fillna_def getitem_def names_table_def
        column_names_def dtype_of_def isnull_def)
  show ?thesis
    using names_table_missing f
    by (simp add: apply_to_def apply_action_def load_def options_def is_numeric_dtype_def
        append_log_def)
qed

text \<open>
  C8, amended: an Apply with "Select an action..." selected raises no error, fills no
  cell and appends no log entry, and so does the handler when \<^verbatim>\<open>custom_val\<close> is
  \<^verbatim>\<open>None\<close>.
\<close>

theorem no_action_selected_changes_nothing:
  "click (ApplyTo col ''Select an action...'' typed) s \<in> {NotRendered, Done s} \<and>
   rerun s (ApplyTo col ''Select an action...'' typed) = s \<and>
   apply_action col ''Select an action...'' custom_val s = Done s \<and>
   apply_action col ''Fill with Custom Value'' None s = Done s"
  by (simp add: apply_to_def apply_action_def rerun_def)


section \<open>Filling missing values\<close>

lemma index_of_nth: "index_of x xs < length xs \<Longrightarrow> xs ! index_of x xs = x"
  by (induction xs) (auto split: if_splits)

lemma index_of_nth_distinct:
  "distinct xs \<Longrightarrow> j < length xs \<Longrightarrow> index_of (xs ! j) xs = j"
proof (induction xs arbitrary: j)
  case Nil
  then show ?case by simp
next
  case (Cons x xs)
  then show ?case
    by (cases j) auto
qed

lemma index_of_less: "index_of x xs < length xs \<longleftrightarrow> x \<in> set xs"
  by (induction xs) auto

lemma rows_fillna_inplace:
  "rows (fillna_inplace d col v) =
   map (\<lambda>r. r[index_of col (column_names d) :=
                (if r ! index_of col (column_names d) = NaN then v
                 else r ! index_of col (column_names d))]) (rows d)"
  by (simp add: fillna_inplace_def setitem_def fillna_def getitem_def Let_def zip_map2
      zip_same_conv_map isnull_def o_def)

lemma column_names_fillna_inplace:
  "column_names (fillna_inplace d col v) = column_names d"
proof (cases "index_of col (column_names d) < length (column_names d)")
  case True
  then show ?thesis
    using index_of_nth [OF True]
    by (simp add: fillna_inplace_def setitem_def Let_def column_names_def map_update
        list_update_same_conv)
next
  case False
  then show ?thesis
    by (simp add: fillna_inplace_def setitem_def Let_def column_names_def list_update_beyond)
qed

lemma fillna_inplace_cell:
  assumes "i < length (rows d)"
    and "j \<noteq> index_of col (column_names d) \<or> rows d ! i ! j \<noteq> NaN"
  shows "rows (fillna_inplace d col v) ! i ! j = rows d ! i ! j"
  using assms by (auto simp: rows_fillna_inplace)

lemma apply_action_mean:
  "df (state_after (apply_action col ''Fill with Mean'' cv s) s) =
   fillna_inplace (df s) col (mean (getitem (df s) col))"
  by (simp add: apply_action_def append_log_def Let_def)

lemma apply_action_median:
  "df (state_after (apply_action col ''Fill with Median'' cv s) s) =
   fillna_inplace (df s) col (median (getitem (df s) col))"
  by (simp add: apply_action_def append_log_def Let_def)

lemma apply_action_mode:
  "df (state_after (apply_action col ''Fill with Mode (Most Frequent)'' cv s) s) =
   (case mode (getitem (df s) col) of [] \<Rightarrow> df s | val # _ \<Rightarrow> fillna_inplace (df s) col val)"
  by (simp add: apply_action_def append_log_def split: list.splits)

lemma apply_action_custom:
  "df (state_after (apply_action col ''Fill with Custom Value'' (Some typed) s) s) =
   fillna_inplace (df s) col (Str typed)"
  by (simp add: apply_action_def append_log_def)

lemma fill_action_cases:
  assumes "action \<in> {''Fill with Mean'', ''Fill with Median'',
                      ''Fill with Mode (Most Frequent)'', ''Fill with Custom Value''}"
  shows "df (rerun s (ApplyTo col action typed)) = df s \<or>
         (\<exists>v. df (rerun s (ApplyTo col action typed)) = fillna_inplace (df s) col v)"
proof (cases "click (ApplyTo col action typed) s = NotRendered")
  case True
  then show ?thesis by (simp add: rerun_def)
next
  case False
  then have c: "click (ApplyTo col action typed) s =
      apply_action col action
        (if action = ''Fill with Custom Value'' then Some typed else None) s"
    by (simp add: apply_to_def split: if_splits)
  from assms consider "action = ''Fill with Mean''" | "action = ''Fill with Median''"
    | "action = ''Fill with Mode (Most Frequent)''" | "action = ''Fill with Custom Value''"
    by blast
  then show ?thesis
  proof cases
    case 1
    show ?thesis
      unfolding rerun_def c unfolding 1 by (auto simp: apply_action_mean)
  next
    case 2
    show ?thesis
      unfolding rerun_def c unfolding 2 by (auto simp: apply_action_median)
  next
    case 3
    show ?thesis
      unfolding rerun_def c unfolding 3 by (cases "mode (getitem (df s) col)") (auto simp: apply_action_mode)
  next
    case 4
    show ?thesis
      unfolding rerun_def c unfolding 4 by (auto simp: apply_action_custom)
  qed
qed

text \<open>
  C10. An Apply with one of the four fill actions keeps the number of rows, their order
  and the column labels, and keeps every cell that is outside the target column or is
  not missing: only missing cells of the target column can change.
\<close>

theorem fill_changes_only_missing_cells_of_column:
  assumes "action \<in> {''Fill with Mean'', ''Fill with Median'',
                      ''Fill with Mode (Most Frequent)'', ''Fill with Custom Value''}"
    and "i < length (rows (df s))"
    and "j \<noteq> index_of col (column_names (df s)) \<or> rows (df s) ! i ! j \<noteq> NaN"
  shows "length (rows (df (rerun s (ApplyTo col action typed)))) = length (rows (df s)) \<and>
         column_names (df (rerun s (ApplyTo col action typed))) = column_names (df s) \<and>
         rows (df (rerun s (ApplyTo col action typed))) ! i ! j = rows (df s) ! i ! j"
proof -
  consider "df (rerun s (ApplyTo col action typed)) = df s"
    | v where "df (rerun s (ApplyTo col action typed)) = fillna_inplace (df s) col v"
    using fill_action_cases [OF assms(1)] by blast
  then show ?thesis
  proof cases
    case 1
    then show ?thesis by simp
  next
    case 2
    show ?thesis
      unfolding 2
      using fillna_inplace_cell [OF assms(2) assms(3)]
      by (simp add: column_names_fillna_inplace rows_fillna_inplace)
  qed
qed

theorem fill_changes_only_missing_cells_of_column_witness:
  "''Fill with Mean'' \<in> {''Fill with Mean'', ''Fill with Median'',
      ''Fill with Mode (Most Frequent)'', ''Fill with Custom Value''} \<and>
   0 < length (rows (df (load ages_table))) \<and>
   index_of ''age'' (column_names (df (load ages_table))) = 1 \<and>
   rows (df (load ages_table)) ! 0 ! 1 = Num 1 \<and>
   length (rows (df (rerun (load ages_table) (ApplyTo ''age'' ''Fill with Mean'' [])))) =
     length (rows (df (load ages_table))) \<and>
   column_names (df (rerun (load ages_table) (ApplyTo ''age'' ''Fill with Mean'' []))) =
     column_names (df (load ages_table)) \<and>
   rows (df (rerun (load ages_table) (ApplyTo ''age'' ''Fill with Mean'' []))) ! 0 ! 1 =
     rows (df (load ages_table)) ! 0 ! 1 \<and>
   rows (df (rerun (load ages_table) (ApplyTo ''age'' ''Fill with Mean'' []))) =
     [[Str ''ann'', Num 1], [NaN, Num 2], [Str ''bob'', Num 3]]"
proof -
  have a: "''Fill with Mean'' \<in> {''Fill with Mean'', ''Fill with Median'',
      ''Fill with Mode (Most Frequent)'', ''Fill with Custom Value''}"
    by simp
  have i: "0 < length (rows (df (load ages_table)))"
    by (simp add: load_def ages_table_def)
  have j: "1 \<noteq> index_of ''age'' (column_names (df (load ages_table))) \<or>
           rows (df (load ages_table)) ! 0 ! 1 \<noteq> NaN"
    by (simp add: load_def ages_table_def)
  have m: "mean (getitem ages_table ''age'') = Num 2"
    by (simp add: mean_def numbers_def getitem_def ages_table_def column_names_def
        List.map_filter_simps)
  have f: "rows (fillna_inplace ages_table ''age'' (Num 2)) =
           [[Str ''ann'', Num 1], [NaN, Num 2], [Str ''bob'', Num 3]]"
    by (simp add: fillna_inplace_def setitem_def fillna_def getitem_def ages_table_def
        column_names_def isnull_def)
  have r: "rows (df (rerun (load ages_table) (ApplyTo ''age'' ''Fill with Mean'' []))) =
           [[Str ''ann'', Num 1], [NaN, Num 2], [Str ''bob'', Num 3]]"
    using ages_table_missing m f
    by (simp add: rerun_def apply_to_def apply_action_def load_def options_def
        is_numeric_dtype_def append_log_def)
  have k: "index_of ''age'' (column_names (df (load ages_table))) = 1 \<and>
           rows (df (load ages_table)) ! 0 ! 1 = Num 1"
    by (simp add: load_def ages_table_def column_names_def)
  show ?thesis
    using a i k r fill_changes_only_missing_cells_of_column [OF a i j, of "[]"]
    by simp
qed

section \<open>Fill with Mode\<close>

lemma set_unique_from:
  "set (map fst (filter (\<lambda>(x, dup). \<not> dup) (zip xs (duplicated_from seen xs)))) =
   set xs - set seen"
  by (induction xs arbitrary: seen) auto

lemma set_unique: "set (unique xs) = set xs"
  using set_unique_from [of xs "[]"] by (simp add: unique_def)

lemma max_list_Max: "max_list ns = Max (set (0 # ns))"
  unfolding max_list_def by (rule Max.set_eq_fold [symmetric])

lemma max_list_ge: "n \<in> set ns \<Longrightarrow> n \<le> max_list ns"
  unfolding max_list_Max by (rule Max_ge) auto

lemma max_list_in:
  assumes "ns \<noteq> []"
  shows "max_list ns \<in> set ns"
proof -
  have "Max (set (0 # ns)) \<in> set (0 # ns)"
    by (rule Max_in) auto
  then have "max_list ns = 0 \<or> max_list ns \<in> set ns"
    by (simp add: max_list_Max)
  moreover have "max_list ns \<in> set ns" if z: "max_list ns = 0"
  proof -
    from assms obtain n where n: "n \<in> set ns" by (cases ns) auto
    from max_list_ge [OF n] z have "n = 0" by simp
    with n z show ?thesis by simp
  qed
  ultimately show ?thesis by blast
qed

lemma hd_sort_key_le:
  assumes "w \<in> set xs"
  shows "f (hd (sort_key f xs)) \<le> f w"
proof -
  have s: "sorted (map f (sort_key f xs))" by (rule sorted_sort_key)
  have w: "w \<in> set (sort_key f xs)" using assms by simp
  show ?thesis
  proof (cases "sort_key f xs")
    case Nil
    with w show ?thesis by simp
  next
    case (Cons y ys)
    with s w show ?thesis by auto
  qed
qed

lemma hd_sort_key_in: "xs \<noteq> [] \<Longrightarrow> hd (sort_key f xs) \<in> set xs"
proof -
  assume "xs \<noteq> []"
  then have "sort_key f xs \<noteq> []"
    by (metis length_sort length_0_conv)
  then have "hd (sort_key f xs) \<in> set (sort_key f xs)" by (rule hd_in_set)
  then show ?thesis by simp
qed

lemma count_list_filter:
  "count_list (filter P xs) w = (if P w then count_list xs w else 0)"
  by (induction xs) auto

lemma mode_text:
  assumes t: "list_all (\<lambda>c. c = NaN \<or> is_str c) xs"
    and ne: "filter notnull xs \<noteq> []"
  shows "mode xs \<noteq> [] \<and> hd (mode xs) \<in> set xs \<and> hd (mode xs) \<noteq> NaN \<and>
         (\<forall>w \<in> set xs. w \<noteq> NaN \<longrightarrow>
            count_list xs w \<le> count_list xs (hd (mode xs)) \<and>
            (count_list xs w = count_list xs (hd (mode xs)) \<longrightarrow>
               str_key (hd (mode xs)) \<le> str_key w))"
proof -
  define vs where "vs = filter notnull xs"
  define us where "us = unique vs"
  define m where "m = max_list (map (count_list vs) us)"
  define tops where "tops = filter (\<lambda>v. count_list vs v = m) us"
  have set_us: "set us = set vs"
    by (simp add: us_def set_unique)
  have vs_set: "set vs = {c \<in> set xs. c \<noteq> NaN}"
    by (auto simp: vs_def notnull_def)
  have cnt: "count_list vs w = count_list xs w" if "w \<noteq> NaN" for w
    using that by (simp add: vs_def count_list_filter notnull_def)
  have us_ne: "us \<noteq> []"
    using ne set_us by (auto simp: vs_def)
  have "m \<in> set (map (count_list vs) us)"
    unfolding m_def using us_ne by (intro max_list_in) simp
  then obtain u where u: "u \<in> set us" "count_list vs u = m"
    by auto
  have tops_ne: "tops \<noteq> []"
    using u by (auto simp: tops_def filter_empty_conv)
  have tops_sub: "set tops \<subseteq> set vs"
    using set_us by (auto simp: tops_def)
  have str: "list_all is_str tops"
    using tops_sub vs_set t by (auto simp: list_all_iff)
  have md: "mode xs = sort_key str_key tops"
    using str by (simp add: mode_def np_sort_def Let_def vs_def us_def m_def tops_def)
  have hd_tops: "hd (mode xs) \<in> set tops"
    unfolding md using tops_ne by (rule hd_sort_key_in)
  have hd_vs: "hd (mode xs) \<in> set vs"
    using hd_tops tops_sub by blast
  have hd_nn: "hd (mode xs) \<noteq> NaN"
    using hd_vs vs_set by simp
  have hd_m: "count_list xs (hd (mode xs)) = m"
    using hd_tops cnt [OF hd_nn] by (simp add: tops_def)
  have le: "count_list xs w \<le> count_list xs (hd (mode xs)) \<and>
            (count_list xs w = count_list xs (hd (mode xs)) \<longrightarrow>
               str_key (hd (mode xs)) \<le> str_key w)"
    if w: "w \<in> set xs" "w \<noteq> NaN" for w
  proof -
    have wu: "w \<in> set us"
      using w set_us vs_set by simp
    then have "count_list vs w \<in> set (map (count_list vs) us)"
      by simp
    then have a: "count_list xs w \<le> m"
      using max_list_ge [of "count_list vs w" "map (count_list vs) us"] cnt [OF w(2)]
      by (simp add: m_def)
    have b: "str_key (hd (mode xs)) \<le> str_key w" if "count_list xs w = m"
    proof -
      have "w \<in> set tops"
        using wu that cnt [OF w(2)] by (simp add: tops_def)
      then show ?thesis
        unfolding md by (rule hd_sort_key_le)
    qed
    from a b show ?thesis by (simp add: hd_m)
  qed
  have "mode xs \<noteq> []"
    using md tops_ne by (metis length_sort length_0_conv)
  moreover have "hd (mode xs) \<in> set xs"
    using hd_vs vs_set by simp
  ultimately show ?thesis
    using hd_nn le by blast
qed

lemma mode_tie: "mode [Str ''b'', Str ''a'', NaN] = [Str ''a'', Str ''b'']"
  by code_simp

lemma mode_votes:
  "mode [Str ''no'', Str ''yes'', NaN, Str ''yes'', Str ''no'', Str ''abstain''] =
   [Str ''no'', Str ''yes'']"
  by code_simp

lemma votes_getitem:
  "getitem votes_table ''vote'' =
   [Str ''no'', Str ''yes'', NaN, Str ''yes'', Str ''no'', Str ''abstain'']"
  by (simp add: getitem_def votes_table_def column_names_def)

lemma getitem_fillna_inplace:
  assumes wf: "well_formed d" and col: "col \<in> set (column_names d)"
  shows "getitem (fillna_inplace d col v) col = fillna (getitem d col) v"
proof -
  have i: "index_of col (column_names d) < length (columns d)"
    using col index_of_less [of col "column_names d"] by (simp add: column_names_def)
  have len: "\<forall>r \<in> set (rows d). index_of col (column_names d) < length r"
    using wf i by (auto simp: well_formed_def list_all_iff)
  show ?thesis
    using len
    by (simp add: getitem_def column_names_fillna_inplace rows_fillna_inplace fillna_def
        isnull_def o_def)
qed

text \<open>
  C7, as the specification states it: among equally frequent values Fill with Mode
  takes the one met first in row order. \<^verbatim>\<open>mode()\<close> returns the most frequent values
  sorted, and line 122 takes the first of them: in the column b, a, missing the values
  b and a both occur once, b comes first, and the missing cell is filled with a.
\<close>

theorem tie_goes_to_smallest_counterexample:
  "getitem tie_table ''name'' = [Str ''b'', Str ''a'', NaN] \<and>
   click (ApplyTo ''name'' ''Fill with Mode (Most Frequent)'' []) (load tie_table) =
     Done \<lparr>df = \<lparr>columns = [(''name'', Object)],
                 rows = [[Str ''b''], [Str ''a''], [Str ''a'']]\<rparr>,
           original_df = tie_table,
           cleaning_log =
             [''Filled missing values in '' @ quoted ''name'' @ '' with mode (a).'']\<rparr>"
proof -
  have g: "getitem tie_table ''name'' = [Str ''b'', Str ''a'', NaN]"
    by (simp add: getitem_def tie_table_def column_names_def)
  have m: "total_missing tie_table = 1 \<and> cols_with_missing tie_table = [''name''] \<and>
           dtype_of tie_table ''name'' = Object"
    by (simp add: tie_table_def total_missing_def cols_with_missing_def missing_data_def
        column_names_def getitem_def isnull_def dtype_of_def)
  have f: "fillna_inplace tie_table ''name'' (Str ''a'') =
           \<lparr>columns = [(''name'', Object)], rows = [[Str ''b''], [Str ''a''], [Str ''a'']]\<rparr>"
    by (simp add: fillna_inplace_def setitem_def fillna_def getitem_def tie_table_def
        column_names_def dtype_of_def isnull_def)
  show ?thesis
    using g m f mode_tie
    by (simp add: apply_to_def apply_action_def load_def options_def is_numeric_dtype_def
        append_log_def)
qed

text \<open>
  C7, amended: on a column whose present values are all text, with at least one
  present, Fill with Mode replaces every missing cell of the column with a most
  frequent present value; among equally frequent values it takes the smallest in
  string order; the log records the value used.
\<close>

theorem fill_mode_takes_smallest_most_frequent:
  assumes r: "click (ApplyTo col ''Fill with Mode (Most Frequent)'' typed) s \<noteq> NotRendered"
    and wf: "well_formed (df s)"
    and t: "list_all (\<lambda>c. c = NaN \<or> is_str c) (getitem (df s) col)"
    and ne: "filter notnull (getitem (df s) col) \<noteq> []"
  shows "click (ApplyTo col ''Fill with Mode (Most Frequent)'' typed) s =
           Done (s\<lparr>df := fillna_inplace (df s) col (hd (mode (getitem (df s) col))),
                   cleaning_log := cleaning_log s @
                     [''Filled missing values in '' @ quoted col @ '' with mode ('' @
                      py_str (hd (mode (getitem (df s) col))) @ '').'']\<rparr>) \<and>
         getitem (fillna_inplace (df s) col (hd (mode (getitem (df s) col)))) col =
           map (\<lambda>c. if c = NaN then hd (mode (getitem (df s) col)) else c)
             (getitem (df s) col) \<and>
         hd (mode (getitem (df s) col)) \<in> set (getitem (df s) col) \<and>
         hd (mode (getitem (df s) col)) \<noteq> NaN \<and>
         (\<forall>w \<in> set (getitem (df s) col). w \<noteq> NaN \<longrightarrow>
            count_list (getitem (df s) col) w \<le>
              count_list (getitem (df s) col) (hd (mode (getitem (df s) col))) \<and>
            (count_list (getitem (df s) col) w =
               count_list (getitem (df s) col) (hd (mode (getitem (df s) col))) \<longrightarrow>
             str_key (hd (mode (getitem (df s) col))) \<le> str_key w))"
proof -
  define xs where "xs = getitem (df s) col"
  define val where "val = hd (mode xs)"
  have m: "mode xs \<noteq> [] \<and> val \<in> set xs \<and> val \<noteq> NaN \<and>
         (\<forall>w \<in> set xs. w \<noteq> NaN \<longrightarrow>
            count_list xs w \<le> count_list xs val \<and>
            (count_list xs w = count_list xs val \<longrightarrow> str_key val \<le> str_key w))"
    unfolding val_def using mode_text [of xs] t ne by (simp add: xs_def)
  then obtain rest where md: "mode xs = val # rest"
    unfolding val_def by (cases "mode xs") auto
  have col: "col \<in> set (column_names (df s))"
    using r cols_with_missing_subset [of "df s"] by (auto simp: apply_to_def split: if_splits)
  have c: "click (ApplyTo col ''Fill with Mode (Most Frequent)'' typed) s =
           apply_action col ''Fill with Mode (Most Frequent)'' None s"
    using r by (simp add: apply_to_def split: if_splits)
  have a: "apply_action col ''Fill with Mode (Most Frequent)'' None s =
           Done (s\<lparr>df := fillna_inplace (df s) col val,
                   cleaning_log := cleaning_log s @
                     [''Filled missing values in '' @ quoted col @ '' with mode ('' @
                      py_str val @ '').'']\<rparr>)"
    using md by (simp add: apply_action_def append_log_def xs_def)
  have g: "getitem (fillna_inplace (df s) col val) col =
           map (\<lambda>c. if c = NaN then val else c) xs"
    using getitem_fillna_inplace [OF wf col] by (simp add: fillna_def isnull_def xs_def)
  show ?thesis
    using m c a g unfolding val_def xs_def by simp
qed

theorem fill_mode_takes_smallest_most_frequent_witness:
  "click (ApplyTo ''vote'' ''Fill with Mode (Most Frequent)'' []) (load votes_table) =
     Done \<lparr>df = \<lparr>columns = [(''id'', Int64), (''vote'', Object)],
                 rows = [[Num 1, Str ''no''], [Num 2, Str ''yes''], [Num 3, Str ''no''],
                         [Num 4, Str ''yes''], [Num 5, Str ''no''], [Num 6, Str ''abstain'']]\<rparr>,
           original_df = votes_table,
           cleaning_log =
             [''Filled missing values in '' @ quoted ''vote'' @ '' with mode (no).'']\<rparr> \<and>
   hd (mode (getitem (df (load votes_table)) ''vote'')) = Str ''no'' \<and>
   count_list (getitem (df (load votes_table)) ''vote'') (Str ''yes'') =
   count_list (getitem (df (load votes_table)) ''vote'') (Str ''no'')"
proof -
  have d: "df (load votes_table) = votes_table"
    by (simp add: load_def)
  have mi: "total_missing votes_table = 1 \<and> cols_with_missing votes_table = [''vote''] \<and>
            dtype_of votes_table ''vote'' = Object"
    by (simp add: votes_table_def total_missing_def cols_with_missing_def missing_data_def
        column_names_def getitem_def isnull_def dtype_of_def)
  have r: "click (ApplyTo ''vote'' ''Fill with Mode (Most Frequent)'' []) (load votes_table)
           \<noteq> NotRendered"
    using mi mode_votes votes_getitem
    by (simp add: apply_to_def apply_action_def load_def options_def is_numeric_dtype_def)
  have wf: "well_formed (df (load votes_table))"
    by (simp add: load_def votes_table_def well_formed_def column_names_def)
  have t: "list_all (\<lambda>c. c = NaN \<or> is_str c) (getitem (df (load votes_table)) ''vote'')"
    by (simp add: d votes_getitem)
  have ne: "filter notnull (getitem (df (load votes_table)) ''vote'') \<noteq> []"
    by (simp add: d votes_getitem notnull_def)
  have f: "fillna_inplace votes_table ''vote'' (Str ''no'') =
           \<lparr>columns = [(''id'', Int64), (''vote'', Object)],
                 rows = [[Num 1, Str ''no''], [Num 2, Str ''yes''], [Num 3, Str ''no''],
                         [Num 4, Str ''yes''], [Num 5, Str ''no''], [Num 6, Str ''abstain'']]\<rparr>"
    by (simp add: fillna_inplace_def setitem_def fillna_def getitem_def votes_table_def
        column_names_def dtype_of_def isnull_def)
  show ?thesis
    using fill_mode_takes_smallest_most_frequent [OF r wf t ne] f
    by (simp add: d votes_getitem mode_votes load_def)
qed

section \<open>Trimming whitespace\<close>

lemma flags_issues: "whitespace_issues flags_table = 1"
  by code_simp

lemma flags_trim_loop:
  "trim_loop (string_cols flags_table) flags_table = (Some AttributeError, flags_table)"
  by code_simp

text \<open>
  C5 says that after one trim the report shows no whitespace issue. The handler calls
  \<^verbatim>\<open>.str.strip()\<close> on every object column (the comment of line 53 and the name
  \<^verbatim>\<open>string_cols\<close> take them all for string columns); on an object column whose
  present values are booleans \<^verbatim>\<open>.str\<close> raises AttributeError, the loop ends there,
  and the text column behind it keeps its leading blank: the report still counts one
  issue and the button stays on the page.
\<close>

theorem trim_stops_at_boolean_column:
  "whitespace_issues (df (load flags_table)) = 1 \<and>
   click TrimAllWhitespace (load flags_table) = Raised AttributeError (load flags_table) \<and>
   whitespace_issues (df (rerun (load flags_table) TrimAllWhitespace)) = 1"
proof -
  have d: "df (load flags_table) = flags_table"
    by (simp add: load_def)
  have c: "click TrimAllWhitespace (load flags_table) = Raised AttributeError (load flags_table)"
    using flags_issues flags_trim_loop by (simp add: trim_all_whitespace_def d)
  show ?thesis
    using c flags_issues by (simp add: rerun_def d)
qed

subsection \<open>When the trim loop runs to its end\<close>

text \<open>
  Stripping is idempotent, and a stripped cell has no whitespace issue.
\<close>

lemma rstrip_fixed:
  assumes "u \<noteq> [] \<Longrightarrow> \<not> isspace (last u)"
  shows "rstrip u = u"
proof (cases u rule: rev_cases)
  case Nil
  then show ?thesis by (simp add: rstrip_def)
next
  case (snoc v c)
  with assms show ?thesis by (simp add: rstrip_def)
qed

lemma rstrip_last: "rstrip s \<noteq> [] \<Longrightarrow> \<not> isspace (last (rstrip s))"
proof -
  assume ne: "rstrip s \<noteq> []"
  then have d: "dropWhile isspace (rev s) \<noteq> []"
    by (simp add: rstrip_def)
  have "last (rstrip s) = hd (dropWhile isspace (rev s))"
    using d by (simp add: rstrip_def last_rev)
  then show ?thesis
    using hd_dropWhile [OF d] by simp
qed

lemma strip_idem: "strip (strip s) = strip s"
proof -
  define t where "t = rstrip s"
  define u where "u = dropWhile isspace t"
  have su: "strip s = u"
    by (simp add: strip_def lstrip_def t_def u_def)
  have "\<not> isspace (last u)" if "u \<noteq> []"
  proof -
    have "t = takeWhile isspace t @ u"
      by (simp add: u_def)
    then have "last t = last u"
      using that by (metis last_appendR)
    moreover have "t \<noteq> []"
      using that by (auto simp: u_def)
    ultimately show ?thesis
      using rstrip_last [of s] by (simp add: t_def)
  qed
  then have "rstrip u = u"
    by (rule rstrip_fixed)
  then have "strip u = u"
    by (simp add: strip_def lstrip_def u_def)
  then show ?thesis
    by (simp add: su)
qed

lemma strip_cell_idem: "strip_cell (strip_cell c) = strip_cell c"
  by (cases c) (simp_all add: strip_idem)

lemma strip_cell_no_issue: "\<not> has_whitespace_issue (strip_cell c)"
  by (cases c) (simp_all add: has_whitespace_issue_def notnull_def strip_idem)

lemma strip_cell_missing: "strip_cell NaN = NaN"
  by simp

lemma rows_setitem_map:
  "rows (setitem d col t (map f (getitem d col))) =
   map (\<lambda>r. r[index_of col (column_names d) := f (r ! index_of col (column_names d))]) (rows d)"
  by (simp add: setitem_def getitem_def Let_def zip_map2 zip_same_conv_map o_def)

lemma string_col_entry:
  assumes "distinct (column_names d)" and "col \<in> set (string_cols d)"
  shows "index_of col (column_names d) < length (columns d) \<and>
         columns d ! index_of col (column_names d) = (col, Object)"
proof -
  from assms(2) have m: "(col, Object) \<in> set (columns d)"
    by (auto simp: string_cols_def)
  then obtain j where j: "j < length (columns d)" "columns d ! j = (col, Object)"
    by (auto simp: in_set_conv_nth)
  then have "column_names d ! j = col"
    by (simp add: column_names_def)
  then have "index_of col (column_names d) = j"
    using index_of_nth_distinct [OF assms(1), of j] j(1) by (simp add: column_names_def)
  with j show ?thesis by simp
qed

lemma columns_setitem_string_col:
  assumes "distinct (column_names d)" and "col \<in> set (string_cols d)"
  shows "columns (setitem d col Object xs) = columns d"
  using string_col_entry [OF assms]
  by (simp add: setitem_def Let_def list_update_same_conv)

lemma trim_loop_cells:
  assumes "trim_loop cols d = (None, d')"
    and "distinct (column_names d)"
    and "set cols \<subseteq> set (string_cols d)"
    and "distinct cols"
  shows "columns d' = columns d \<and> length (rows d') = length (rows d) \<and>
         (\<forall>a < length (rows d). length (rows d' ! a) = length (rows d ! a) \<and>
            (\<forall>j < length (rows d ! a). rows d' ! a ! j = trimmed_cell d cols a j))"
  using assms
proof (induction cols arbitrary: d)
  case Nil
  then show ?case by (simp add: trimmed_cell_def)
next
  case (Cons col cols)
  define i where "i = index_of col (column_names d)"
  define d1 where "d1 = setitem d col Object (map strip_cell (getitem d col))"
  from Cons.prems(3) have col: "col \<in> set (string_cols d)"
    by simp
  note entry = string_col_entry [OF Cons.prems(2) col, folded i_def]
  from Cons.prems(1) have ok: "str_accessor_ok (getitem d col)"
    by (auto simp: str_strip_def split: if_splits)
  with Cons.prems(1) have loop: "trim_loop cols d1 = (None, d')"
    by (simp add: str_strip_def d1_def)
  have c1: "columns d1 = columns d"
    unfolding d1_def by (rule columns_setitem_string_col [OF Cons.prems(2) col])
  have r1: "rows d1 = map (\<lambda>r. r[i := strip_cell (r ! i)]) (rows d)"
    unfolding d1_def i_def by (rule rows_setitem_map)
  have n1: "column_names d1 = column_names d"
    by (simp add: column_names_def c1)
  have s1: "string_cols d1 = string_cols d"
    by (simp add: string_cols_def c1)
  have ih: "columns d' = columns d1 \<and> length (rows d') = length (rows d1) \<and>
         (\<forall>a < length (rows d1). length (rows d' ! a) = length (rows d1 ! a) \<and>
            (\<forall>j < length (rows d1 ! a). rows d' ! a ! j = trimmed_cell d1 cols a j))"
    using Cons.prems by (intro Cons.IH [OF loop]) (simp_all add: n1 s1)
  have namei: "column_names d ! i = col"
    using entry by (simp add: column_names_def)
  have cell: "trimmed_cell d1 cols a j = trimmed_cell d (col # cols) a j"
    if a: "a < length (rows d)" and j: "j < length (rows d ! a)" for a j
  proof (cases "j = i")
    case True
    have "col \<notin> set cols"
      using Cons.prems(4) by simp
    then show ?thesis
      using a j True entry namei by (simp add: trimmed_cell_def c1 n1 r1)
  next
    case False
    have "column_names d ! j \<noteq> col" if "j < length (columns d)"
      using that False entry namei Cons.prems(2)
      by (metis column_names_def length_map nth_eq_iff_index_eq)
    then show ?thesis
      using a j False by (auto simp: trimmed_cell_def c1 n1 r1)
  qed
  show ?case
    using ih cell by (simp add: c1 r1)
qed

lemma str_accessor_ok_fixed:
  assumes "list_all (\<lambda>c. strip_cell c = c) xs"
  shows "str_accessor_ok xs"
proof -
  have str: "is_str c" if "c \<in> set xs" "notnull c" for c
  proof -
    from that assms have "strip_cell c = c" "c \<noteq> NaN"
      by (simp_all add: list_all_iff notnull_def)
    then show ?thesis
      by (cases c) simp_all
  qed
  show ?thesis
  proof (cases "filter notnull xs")
    case Nil
    then show ?thesis by (simp add: str_accessor_ok_def)
  next
    case (Cons v vs)
    then have "v \<in> set (filter notnull xs)"
      by simp
    then have "is_str v"
      using str by simp
    then have "\<not> is_num v \<and> \<not> is_bool v"
      by (cases v) simp_all
    then show ?thesis
      by (simp add: str_accessor_ok_def Cons)
  qed
qed

lemma trim_loop_fixed:
  assumes "distinct (column_names d)"
    and "\<forall>col \<in> set cols. col \<in> set (string_cols d) \<and>
           list_all (\<lambda>c. strip_cell c = c) (getitem d col)"
  shows "trim_loop cols d = (None, d)"
  using assms(2)
proof (induction cols)
  case Nil
  show ?case by simp
next
  case (Cons col cols)
  then have col: "col \<in> set (string_cols d)"
    and fixed: "list_all (\<lambda>c. strip_cell c = c) (getitem d col)"
    by simp_all
  have "map (\<lambda>r. r[index_of col (column_names d) :=
                strip_cell (r ! index_of col (column_names d))]) (rows d) = rows d"
    using fixed by (intro map_idI) (simp add: getitem_def list_all_iff)
  then have "rows (setitem d col Object (map strip_cell (getitem d col))) = rows d"
    by (simp add: rows_setitem_map)
  moreover have "columns (setitem d col Object (map strip_cell (getitem d col))) = columns d"
    by (rule columns_setitem_string_col [OF assms(1) col])
  ultimately have same: "setitem d col Object (map strip_cell (getitem d col)) = d"
    by (simp add: dataframe.equality setitem_def Let_def)
  show ?case
    using Cons str_accessor_ok_fixed [OF fixed] by (simp add: str_strip_def same)
qed

lemma distinct_string_cols: "distinct (column_names d) \<Longrightarrow> distinct (string_cols d)"
  unfolding column_names_def string_cols_def by (rule distinct_map_filter)

lemma getitem_trimmed:
  assumes wf: "well_formed d"
    and loop: "trim_loop (string_cols d) d = (None, d')"
    and col: "col \<in> set (string_cols d)"
  shows "getitem d' col = map strip_cell (getitem d col)"
proof -
  from wf have dist: "distinct (column_names d)"
    and len: "\<And>r. r \<in> set (rows d) \<Longrightarrow> length r = length (columns d)"
    by (simp_all add: well_formed_def list_all_iff)
  note cells = trim_loop_cells [OF loop dist subset_refl distinct_string_cols [OF dist]]
  note entry = string_col_entry [OF dist col]
  define i where "i = index_of col (column_names d)"
  have names: "column_names d' = column_names d"
    using cells by (simp add: column_names_def)
  have namei: "column_names d ! i = col"
    using entry by (simp add: column_names_def i_def)
  show ?thesis
  proof (rule nth_equalityI)
    show "length (getitem d' col) = length (map strip_cell (getitem d col))"
      using cells by (simp add: getitem_def)
  next
    fix a assume "a < length (getitem d' col)"
    then have a: "a < length (rows d)"
      using cells by (simp add: getitem_def)
    then have "length (rows d ! a) = length (columns d)"
      using len by simp
    then have i: "i < length (rows d ! a)"
      using entry by (simp add: i_def)
    have "rows d' ! a ! i = trimmed_cell d (string_cols d) a i"
      using cells a i by simp
    also have "\<dots> = strip_cell (rows d ! a ! i)"
      using entry col namei by (simp add: trimmed_cell_def i_def)
    finally show "getitem d' col ! a = map strip_cell (getitem d col) ! a"
      using a cells by (simp add: getitem_def names i_def)
  qed
qed

text \<open>
  When the handler runs to its end on a well-formed table, the report of the new table
  counts no whitespace issue and the button is gone; running the loop once more changes
  nothing; the columns and the number of rows are as before, and every missing cell is
  still missing.
\<close>

lemma trim_done:
  assumes wf: "well_formed (df s)"
    and finished: "click TrimAllWhitespace s = Done s'"
  shows "whitespace_issues (df s') = 0 \<and>
         click TrimAllWhitespace s' = NotRendered \<and>
         trim_loop (string_cols (df s')) (df s') = (None, df s') \<and>
         columns (df s') = columns (df s) \<and>
         length (rows (df s')) = length (rows (df s)) \<and>
         (\<forall>a < length (rows (df s)). \<forall>j < length (rows (df s) ! a).
            rows (df s) ! a ! j = NaN \<longrightarrow> rows (df s') ! a ! j = NaN)"
proof -
  define d where "d = df s"
  define d' where "d' = df s'"
  from finished have loop: "trim_loop (string_cols d) d = (None, d')"
    by (auto simp: trim_all_whitespace_def Let_def append_log_def d_def d'_def
        split: if_splits prod.splits option.splits)
  from wf have dist: "distinct (column_names d)"
    by (simp add: well_formed_def d_def)
  note cells = trim_loop_cells [OF loop dist subset_refl distinct_string_cols [OF dist]]
  have cols: "columns d' = columns d"
    using cells by simp
  have sc: "string_cols d' = string_cols d" and names: "column_names d' = column_names d"
    by (simp_all add: string_cols_def column_names_def cols)
  have col: "getitem d' col = map strip_cell (getitem d col)" if "col \<in> set (string_cols d)" for col
    using wf loop that unfolding d_def by (rule getitem_trimmed)
  have zero: "length (filter has_whitespace_issue (getitem d' col)) = 0"
    if "col \<in> set (string_cols d)" for col
    by (simp add: col [OF that] filter_empty_conv strip_cell_no_issue)
  have issues: "whitespace_issues d' = 0"
    using zero by (simp add: whitespace_issues_def sc)
  have fixed: "\<forall>col \<in> set (string_cols d'). col \<in> set (string_cols d') \<and>
           list_all (\<lambda>c. strip_cell c = c) (getitem d' col)"
    using col by (simp add: sc list_all_iff strip_cell_idem)
  have again: "trim_loop (string_cols d') d' = (None, d')"
    using dist fixed by (intro trim_loop_fixed) (simp_all add: names)
  have missing: "rows d' ! a ! j = NaN"
    if "a < length (rows d)" "j < length (rows d ! a)" "rows d ! a ! j = NaN" for a j
    using cells that by (simp add: trimmed_cell_def)
  have "click TrimAllWhitespace s' = NotRendered"
    using issues by (simp add: trim_all_whitespace_def d'_def)
  then show ?thesis
    using issues again cols cells missing unfolding d_def d'_def by simp
qed

lemma padded_trim:
  "well_formed (df (load padded_table)) \<and>
   click TrimAllWhitespace (load padded_table) =
     Done \<lparr>df = \<lparr>columns = [(''name'', Object), (''age'', Float64)],
                 rows = [[Str ''ann'', Num 1], [NaN, NaN], [Str ''bob'', Num 2]]\<rparr>,
           original_df = padded_table,
           cleaning_log = [''Trimmed whitespace in 1 cells.'']\<rparr>"
  by code_simp

section \<open>Export and load\<close>

subsection \<open>The tokenizer reads back what the writer wrote\<close>











subsection \<open>The loader infers the columns back\<close>

























end
